theory Spec2Isabelle
  imports Main "HOL-Library.Word" "HOL-Library.Sublist"
begin

section \<open>JavaScript strings\<close>

text \<open>
  A JavaScript string is a sequence of 16-bit code units; \<open>length\<close>, \<open>substring\<close> and the
  parser's offsets all count code units. \<open>str\<close> writes an ASCII literal as such a sequence.
\<close>

type_synonym jsstring = "16 word list"

definition str :: "string \<Rightarrow> jsstring" where
  "str cs = map of_char cs"

text \<open>
  \<open>String.prototype.substring(start, end)\<close> for non-negative integer arguments: both
  arguments are clamped to the length and swapped when they are out of order. With
  \<open>end\<close> left out, it is the length.
\<close>

definition substring :: "jsstring \<Rightarrow> nat \<Rightarrow> nat \<Rightarrow> jsstring" where
  "substring s intStart intEnd =
     (let len = length s;
          finalStart = min intStart len;
          finalEnd = min intEnd len;
          from = min finalStart finalEnd;
          to = max finalStart finalEnd
      in take (to - from) (drop from s))"

definition substring_from :: "jsstring \<Rightarrow> nat \<Rightarrow> jsstring" where
  "substring_from s intStart = substring s intStart (length s)"

text \<open>
  The code units that \<open>trim\<close>, \<open>trimStart\<close> and \<open>trimEnd\<close> strip: ECMAScript's
  WhiteSpace (TAB, VT, FF, ZWNBSP and the space separators of Unicode) and LineTerminator
  (LF, CR, LS, PS).
\<close>

definition isWhiteSpace :: "16 word \<Rightarrow> bool" where
  "isWhiteSpace c \<longleftrightarrow>
     c = 0x0009 \<or> c = 0x000A \<or> c = 0x000B \<or> c = 0x000C \<or> c = 0x000D \<or>
     c = 0x0020 \<or> c = 0x00A0 \<or> c = 0x1680 \<or> (0x2000 \<le> c \<and> c \<le> 0x200A) \<or>
     c = 0x2028 \<or> c = 0x2029 \<or> c = 0x202F \<or> c = 0x205F \<or> c = 0x3000 \<or>
     c = 0xFEFF"

definition trimStart :: "jsstring \<Rightarrow> jsstring" where
  "trimStart s = dropWhile isWhiteSpace s"

definition trimEnd :: "jsstring \<Rightarrow> jsstring" where
  "trimEnd s = rev (dropWhile isWhiteSpace (rev s))"

definition trim :: "jsstring \<Rightarrow> jsstring" where
  "trim s = trimStart (trimEnd s)"

text \<open>\<open>Array.prototype.join(separator)\<close> on an array of strings.\<close>

fun join :: "jsstring list \<Rightarrow> jsstring \<Rightarrow> jsstring" where
  "join [] sep = []"
| "join [x] sep = x"
| "join (x # y # ys) sep = x @ sep @ join (y # ys) sep"

text \<open>
  \<open>new Set(xs)\<close> followed by \<open>Array.from\<close>: a set keeps its elements in insertion
  order, and adding an element it already holds changes nothing.
\<close>

definition Set_add :: "'a list \<Rightarrow> 'a \<Rightarrow> 'a list" where
  "Set_add s x = (if x \<in> set s then s else s @ [x])"

definition new_Set :: "'a list \<Rightarrow> 'a list" where
  "new_Set xs = foldl Set_add [] xs"

definition Array_from :: "'a list \<Rightarrow> 'a list" where
  "Array_from s = s"

section \<open>Tokens\<close>

text \<open>
  Modelled from the spec: the token types of the search syntax parser (\<open>Token\<close>,
  \<open>TermOperator\<close>, \<open>TokenResult\<close>), which this module imports and which are declared
  in the parser's module. A token is a parsed unit with a type tag, its source text and a
  location span of two offsets into the query; a filter token owns a key, an operator, a
  negation flag and a value token; a list value holds an ordered sequence of items. The
  fields are those this module reads or writes. The members of the two enums that this
  module does not name are collected under \<open>OTHER_TOKEN\<close> and \<open>OTHER_OPERATOR\<close>,
  tagged by their name.
\<close>

datatype Token =
    SPACES
  | FILTER
  | FREE_TEXT
  | VALUE_TEXT_LIST
  | VALUE_NUMBER_LIST
  | OTHER_TOKEN string

datatype TermOperator =
    DEFAULT
  | NOT_EQUAL
  | OTHER_OPERATOR string

record position =
  offset :: nat

record location =
  start :: position
  end' :: position

text \<open>Every token result carries its type, its source text and its location.\<close>

record token =
  type :: Token
  "text" :: jsstring
  location :: location

text \<open>An item of a list value: its separator and its value token, which may be null.\<close>

record list_item =
  separator :: jsstring
  item_value :: "token option"

text \<open>
  The value of a filter. \<open>items\<close> is only read when the type is one of the two list
  types.
\<close>

record value_token = token +
  items :: "list_item list"

record filter_token = token +
  key :: token
  operator :: TermOperator
  negated :: bool
  "value" :: value_token

section \<open>The query builder state and its actions\<close>

record QueryBuilderState =
  query :: jsstring

text \<open>
  The six actions of \<open>QueryBuilderActions\<close>, each with its payload. DELETE_TOKEN and
  UPDATE_TOKEN_VALUE take any token and read its location only, so they carry the fields
  common to all tokens. The reducer's \<open>switch\<close> has a default arm for any other type
  tag; \<open>OTHER_ACTION\<close> is an action with such a tag.
\<close>

datatype QueryBuilderActions =
    DELETE_TOKEN token
  | UPDATE_FREE_TEXT jsstring token
  | UPDATE_FILTER_OP TermOperator filter_token
  | UPDATE_TOKEN_VALUE token jsstring
  | TOGGLE_FILTER_VALUE filter_token jsstring
  | DELETE_LAST_MULTI_SELECT_FILTER_VALUE filter_token
  | OTHER_ACTION string

fun action_type :: "QueryBuilderActions \<Rightarrow> string" where
  "action_type (DELETE_TOKEN _) = ''DELETE_TOKEN''"
| "action_type (UPDATE_FREE_TEXT _ _) = ''UPDATE_FREE_TEXT''"
| "action_type (UPDATE_FILTER_OP _ _) = ''UPDATE_FILTER_OP''"
| "action_type (UPDATE_TOKEN_VALUE _ _) = ''UPDATE_TOKEN_VALUE''"
| "action_type (TOGGLE_FILTER_VALUE _ _) = ''TOGGLE_FILTER_VALUE''"
| "action_type (DELETE_LAST_MULTI_SELECT_FILTER_VALUE _) =
     ''DELETE_LAST_MULTI_SELECT_FILTER_VALUE''"
| "action_type (OTHER_ACTION tag) = tag"

definition removeQueryToken :: "jsstring \<Rightarrow> 'a token_scheme \<Rightarrow> jsstring" where
  "removeQueryToken q token =
     substring q 0 (offset (start (location token))) @
     substring_from q (offset (end' (location token)))"

text \<open>
  \<open>modifyFilterOperator\<close> assigns to two fields of the token it is given before it
  stringifies it; the token after the assignments is returned beside the new query.
  \<open>stringifyToken\<close> is imported from the search syntax utilities and is a parameter here.
\<close>

definition modifyFilterOperator ::
  "(filter_token \<Rightarrow> jsstring) \<Rightarrow> jsstring \<Rightarrow> filter_token \<Rightarrow> TermOperator
     \<Rightarrow> jsstring \<times> filter_token" where
  "modifyFilterOperator stringifyToken q token newOperator =
     (let isNotEqual = (newOperator = NOT_EQUAL);
          token1 = token\<lparr>operator := (if isNotEqual then DEFAULT else newOperator)\<rparr>;
          token2 = token1\<lparr>negated := isNotEqual\<rparr>
      in (substring q 0 (offset (start (location token2))) @
          stringifyToken token2 @
          substring_from q (offset (end' (location token2))),
          token2))"

definition replaceQueryToken :: "jsstring \<Rightarrow> 'a token_scheme \<Rightarrow> jsstring \<Rightarrow> jsstring" where
  "replaceQueryToken q token val =
     (let start_part = substring q 0 (offset (start (location token)));
          end_part = substring_from q (offset (end' (location token)))
      in start_part @ val @ end_part)"

definition replaceTokenWithPadding ::
  "jsstring \<Rightarrow> 'a token_scheme \<Rightarrow> jsstring \<Rightarrow> jsstring" where
  "replaceTokenWithPadding q token val =
     (let start_part = substring q 0 (offset (start (location token)));
          end_part = substring_from q (offset (end' (location token)))
      in trim (trimEnd start_part @ str '' '' @ trim val @ str '' '' @ trimStart end_part))"

definition updateFreeText ::
  "QueryBuilderState \<Rightarrow> jsstring \<Rightarrow> token \<Rightarrow> QueryBuilderState" where
  "updateFreeText state action_text action_token =
     (let newQuery = replaceTokenWithPadding (query state) action_token action_text
      in state\<lparr>query := newQuery\<rparr>)"

definition uniqNonEmptyValues :: "jsstring list \<Rightarrow> jsstring list" where
  "uniqNonEmptyValues values = Array_from (new_Set (filter (\<lambda>v. length v > 0) values))"

definition updateFilterMultipleValues ::
  "QueryBuilderState \<Rightarrow> filter_token \<Rightarrow> jsstring list \<Rightarrow> QueryBuilderState" where
  "updateFilterMultipleValues state token values =
     (let uniq = uniqNonEmptyValues values
      in if length uniq = 0
         then state\<lparr>query := replaceQueryToken (query state) (value token) []\<rparr>
         else
           let newValue =
                 (if length uniq > 1 then str ''['' @ join uniq (str '','') @ str '']''
                  else uniq ! 0)
           in state\<lparr>query := replaceQueryToken (query state) (value token) newValue\<rparr>)"

text \<open>\<open>item.value?.text ?? ''\<close>: the text of the item's value, the empty string when the value is null.\<close>

definition item_text :: "list_item \<Rightarrow> jsstring" where
  "item_text item = (case item_value item of None \<Rightarrow> [] | Some v \<Rightarrow> text v)"

definition multiSelectTokenValue ::
  "QueryBuilderState \<Rightarrow> filter_token \<Rightarrow> jsstring \<Rightarrow> QueryBuilderState" where
  "multiSelectTokenValue state action_token action_value =
     (let tokenValue = value action_token
      in if type tokenValue = VALUE_TEXT_LIST \<or> type tokenValue = VALUE_NUMBER_LIST
         then
           let values = map item_text (items tokenValue);
               containsValue = (action_value \<in> set values);
               newValues = (if containsValue then filter (\<lambda>v. v \<noteq> action_value) values
                            else values @ [action_value])
           in updateFilterMultipleValues state action_token newValues
         else if text tokenValue = action_value
           then updateFilterMultipleValues state action_token [[]]
           else updateFilterMultipleValues state action_token [text tokenValue, action_value])"

definition deleteLastMultiSelectTokenValue ::
  "QueryBuilderState \<Rightarrow> filter_token \<Rightarrow> QueryBuilderState" where
  "deleteLastMultiSelectTokenValue state action_token =
     (let tokenValue = value action_token
      in if type tokenValue = VALUE_TEXT_LIST \<or> type tokenValue = VALUE_NUMBER_LIST
         then
           let newValues = map item_text (butlast (items tokenValue))
           in updateFilterMultipleValues state action_token newValues
         else updateFilterMultipleValues state action_token [[]])"

fun reducer ::
  "(filter_token \<Rightarrow> jsstring) \<Rightarrow> QueryBuilderState \<Rightarrow> QueryBuilderActions
     \<Rightarrow> QueryBuilderState" where
  "reducer stringifyToken state (DELETE_TOKEN token) =
     \<lparr>query = removeQueryToken (query state) token\<rparr>"
| "reducer stringifyToken state (UPDATE_FREE_TEXT txt token) =
     updateFreeText state txt token"
| "reducer stringifyToken state (UPDATE_FILTER_OP op token) =
     \<lparr>query = fst (modifyFilterOperator stringifyToken (query state) token op)\<rparr>"
| "reducer stringifyToken state (UPDATE_TOKEN_VALUE token val) =
     \<lparr>query = replaceQueryToken (query state) token val\<rparr>"
| "reducer stringifyToken state (TOGGLE_FILTER_VALUE token val) =
     multiSelectTokenValue state token val"
| "reducer stringifyToken state (DELETE_LAST_MULTI_SELECT_FILTER_VALUE token) =
     deleteLastMultiSelectTokenValue state token"
| "reducer stringifyToken state (OTHER_ACTION tag) = state"

section \<open>Notions the properties are stated with\<close>

text \<open>The span of a token: the two offsets of its location.\<close>

abbreviation span_start :: "'a token_scheme \<Rightarrow> nat" where
  "span_start token \<equiv> offset (start (location token))"

abbreviation span_end :: "'a token_scheme \<Rightarrow> nat" where
  "span_end token \<equiv> offset (end' (location token))"

text \<open>
  The literal of a list of values that holds no duplicate and no empty string: empty for
  no value, the bare value for one, and for more the values between brackets, each but
  the first after a comma.
\<close>

fun list_literal :: "jsstring list \<Rightarrow> jsstring" where
  "list_literal [] = []"
| "list_literal [v] = v"
| "list_literal (v # w # ws) =
     str ''['' @ v @ concat (map (\<lambda>x. str '','' @ x) (w # ws)) @ str '']''"

text \<open>
  The values a filter's value token stands for: the texts of the items of a list, the
  text of a scalar.
\<close>

definition is_list_value :: "value_token \<Rightarrow> bool" where
  "is_list_value tv \<longleftrightarrow> type tv = VALUE_TEXT_LIST \<or> type tv = VALUE_NUMBER_LIST"

definition token_values :: "value_token \<Rightarrow> jsstring list" where
  "token_values tv = (if is_list_value tv then map item_text (items tv) else [text tv])"

text \<open>
  Toggling a candidate, as the specification words it: in a list, the candidate is added
  at the end when absent and every occurrence of it is removed when present; a scalar
  equal to the candidate gives no value, another scalar gives the pair of the scalar and
  the candidate.
\<close>

definition toggled_values :: "value_token \<Rightarrow> jsstring \<Rightarrow> jsstring list" where
  "toggled_values tv v =
     (if is_list_value tv
      then (if v \<in> set (map item_text (items tv))
            then removeAll v (map item_text (items tv))
            else map item_text (items tv) @ [v])
      else if text tv = v then [] else [text tv, v])"

text \<open>
  The first step of the rule for lists of values, as the specification words it: empty
  strings are dropped, and of equal values the first is kept where it stands.
\<close>

fun kept_values :: "jsstring list \<Rightarrow> jsstring list" where
  "kept_values [] = []"
| "kept_values (x # xs) =
     (if x = [] then kept_values xs else x # kept_values (filter (\<lambda>y. y \<noteq> x) xs))"

text \<open>
  \<open>reads_back u s tv\<close> relates values that were written to a token that is used next:
  the value token \<open>tv\<close> lies at the span the literal of \<open>u\<close> takes from offset \<open>s\<close> and
  stands for the values \<open>u\<close>, as a list token with these items for more than one value,
  as a scalar token with the literal as its text otherwise. This is a condition on one
  token, not a description of the parser: the parser reads the text only, and different
  values can have the same literal (the single value \<open>[a,b]\<close> and the two values \<open>a\<close>
  and \<open>b\<close>), so that a token parsed from the text stands for the values written only
  when the literal is unambiguous.
\<close>

definition reads_back :: "jsstring list \<Rightarrow> nat \<Rightarrow> value_token \<Rightarrow> bool" where
  "reads_back u s tv \<longleftrightarrow>
     span_start tv = s \<and> span_end tv = s + length (list_literal u) \<and>
     (if length u > 1 then is_list_value tv \<and> map item_text (items tv) = u
      else \<not> is_list_value tv \<and> text tv = list_literal u)"

text \<open>A value without the characters of the list syntax: no bracket and no comma.\<close>

definition plain :: "jsstring \<Rightarrow> bool" where
  "plain x \<longleftrightarrow> list_all (\<lambda>c. c \<noteq> 0x5B \<and> c \<noteq> 0x5D \<and> c \<noteq> 0x2C) x"

text \<open>
  Modelled from the spec: the parser, an external collaborator of this module, as far as
  it is a function of the text. \<open>literal_token tv\<close>: the value token \<open>tv\<close> agrees with
  its own text, which for a list token is the bracketed, comma-separated texts of its
  items, themselves free of brackets and commas, and for a scalar token is free of
  brackets and commas.
\<close>

definition literal_token :: "value_token \<Rightarrow> bool" where
  "literal_token tv \<longleftrightarrow>
     (if is_list_value tv
      then items tv \<noteq> [] \<and> list_all plain (map item_text (items tv)) \<and>
           text tv = str ''['' @ join (map item_text (items tv)) (str '','') @ str '']''
      else plain (text tv))"

text \<open>
  \<open>verbatim_outside s e Q R\<close>: the result \<open>R\<close> starts with the text of \<open>Q\<close> before offset
  \<open>s\<close> and ends with the text of \<open>Q\<close> from offset \<open>e\<close> on, the two not overlapping.
\<close>

definition verbatim_outside :: "nat \<Rightarrow> nat \<Rightarrow> jsstring \<Rightarrow> jsstring \<Rightarrow> bool" where
  "verbatim_outside s e Q R \<longleftrightarrow>
     prefix (take s Q) R \<and> suffix (drop e Q) R \<and>
     length (take s Q) + length (drop e Q) \<le> length R"

text \<open>Tokens for the examples.\<close>

definition mk_token :: "Token \<Rightarrow> string \<Rightarrow> nat \<Rightarrow> nat \<Rightarrow> token" where
  "mk_token ty txt s e =
     \<lparr>type = ty, text = str txt, location = \<lparr>start = \<lparr>offset = s\<rparr>, end' = \<lparr>offset = e\<rparr>\<rparr>\<rparr>"

definition mk_value :: "Token \<Rightarrow> string \<Rightarrow> nat \<Rightarrow> nat \<Rightarrow> list_item list \<Rightarrow> value_token" where
  "mk_value ty txt s e its =
     \<lparr>type = ty, text = str txt, location = \<lparr>start = \<lparr>offset = s\<rparr>, end' = \<lparr>offset = e\<rparr>\<rparr>,
      items = its\<rparr>"

definition mk_filter :: "string \<Rightarrow> nat \<Rightarrow> nat \<Rightarrow> token \<Rightarrow> value_token \<Rightarrow> filter_token" where
  "mk_filter txt s e k v =
     \<lparr>type = FILTER, text = str txt, location = \<lparr>start = \<lparr>offset = s\<rparr>, end' = \<lparr>offset = e\<rparr>\<rparr>,
      key = k, operator = DEFAULT, negated = False, value = v\<rparr>"

definition mk_item :: "string \<Rightarrow> string \<Rightarrow> nat \<Rightarrow> nat \<Rightarrow> list_item" where
  "mk_item sep txt s e =
     \<lparr>separator = str sep, item_value = Some (mk_token (OTHER_TOKEN ''valueText'') txt s e)\<rparr>"

text \<open>The filter \<open>assigned:[me,team]\<close> at the start of a query.\<close>

definition assigned_me_team :: filter_token where
  "assigned_me_team =
     mk_filter ''assigned:[me,team]'' 0 18 (mk_token (OTHER_TOKEN ''keySimple'') ''assigned'' 0 8)
       (mk_value VALUE_TEXT_LIST ''[me,team]'' 9 18
          [mk_item [] ''me'' 10 12, mk_item '','' ''team'' 13 17])"

text \<open>The filter \<open>assigned:team\<close>, as parsed from the query the first toggle leaves.\<close>

definition assigned_team :: filter_token where
  "assigned_team =
     mk_filter ''assigned:team'' 0 13 (mk_token (OTHER_TOKEN ''keySimple'') ''assigned'' 0 8)
       (mk_value (OTHER_TOKEN ''valueText'') ''team'' 9 13 [])"

text \<open>The filter \<open>assigned:[me,me]\<close>, a list that holds a value twice.\<close>

definition assigned_me_me :: filter_token where
  "assigned_me_me =
     mk_filter ''assigned:[me,me]'' 0 16 (mk_token (OTHER_TOKEN ''keySimple'') ''assigned'' 0 8)
       (mk_value VALUE_TEXT_LIST ''[me,me]'' 9 16
          [mk_item [] ''me'' 10 12, mk_item '','' ''me'' 13 15])"

text \<open>The filter \<open>assigned:\<close>, whose value is the empty text.\<close>

definition assigned_empty :: filter_token where
  "assigned_empty =
     mk_filter ''assigned:'' 0 9 (mk_token (OTHER_TOKEN ''keySimple'') ''assigned'' 0 8)
       (mk_value (OTHER_TOKEN ''valueText'') [] 9 9 [])"


text \<open>
  A stringifier for the examples: the negation mark, the key, a colon and the value.
\<close>

definition example_stringifyToken :: "filter_token \<Rightarrow> jsstring" where
  "example_stringifyToken t =
     (if negated t then str ''!'' else []) @ text (key t) @ str '':'' @ text (value t)"

section \<open>Substrings and replacement\<close>

lemma substring_prefix: "substring s 0 n = take n s"
  by (simp add: substring_def Let_def min_def)

lemma substring_from_drop: "substring_from s n = drop n s"
  by (simp add: substring_from_def substring_def Let_def min_def max_def)

lemma replaceQueryToken_eq:
  "replaceQueryToken q t v =
     take (offset (start (location t))) q @ v @ drop (offset (end' (location t))) q"
  by (simp add: replaceQueryToken_def substring_prefix substring_from_drop)

section \<open>Sets in insertion order\<close>

lemma Set_add_old: "x \<in> set s \<Longrightarrow> Set_add s x = s"
  by (simp add: Set_add_def)

lemma Set_add_new: "x \<notin> set s \<Longrightarrow> Set_add s x = s @ [x]"
  by (simp add: Set_add_def)

lemma foldl_Set_add_filter:
  "foldl Set_add acc (filter P xs) =
     acc @ foldl Set_add [] (filter (\<lambda>y. P y \<and> y \<notin> set acc) xs)"
proof (induction xs arbitrary: acc P)
  case Nil
  show ?case by simp
next
  case (Cons x xs)
  show ?case
  proof (cases "P x")
    case False
    then show ?thesis using Cons.IH [of acc P] by simp
  next
    case True
    show ?thesis
    proof (cases "x \<in> set acc")
      case True
      with \<open>P x\<close> show ?thesis using Cons.IH [of acc P] by (simp add: Set_add_old)
    next
      case False
      have a: "foldl Set_add (acc @ [x]) (filter P xs) =
          (acc @ [x]) @ foldl Set_add [] (filter (\<lambda>y. P y \<and> y \<notin> set (acc @ [x])) xs)"
        by (rule Cons.IH)
      have b: "foldl Set_add [x] (filter (\<lambda>y. P y \<and> y \<notin> set acc) xs) =
          [x] @ foldl Set_add [] (filter (\<lambda>y. (P y \<and> y \<notin> set acc) \<and> y \<notin> set [x]) xs)"
        by (rule Cons.IH)
      have c: "filter (\<lambda>y. P y \<and> y \<noteq> x \<and> y \<notin> set acc) xs =
          filter (\<lambda>y. P y \<and> y \<notin> set acc \<and> y \<noteq> x) xs"
        by (rule filter_cong) auto
      from False \<open>P x\<close> show ?thesis
        using a b c by (simp add: Set_add_new)
    qed
  qed
qed

lemma new_Set_Nil: "new_Set [] = []"
  by (simp add: new_Set_def)

lemma new_Set_Cons: "new_Set (x # xs) = x # new_Set (filter (\<lambda>y. y \<noteq> x) xs)"
proof -
  have "foldl Set_add [x] (filter (\<lambda>y. True) xs) =
      [x] @ foldl Set_add [] (filter (\<lambda>y. True \<and> y \<notin> set [x]) xs)"
    by (rule foldl_Set_add_filter)
  then show ?thesis by (simp add: new_Set_def Set_add_new)
qed

lemma set_Set_add: "set (Set_add s x) = insert x (set s)"
  by (auto simp: Set_add_def)

lemma distinct_Set_add: "distinct s \<Longrightarrow> distinct (Set_add s x)"
  by (simp add: Set_add_def)

lemma set_foldl_Set_add: "set (foldl Set_add acc xs) = set acc \<union> set xs"
  by (induction xs arbitrary: acc) (auto simp: set_Set_add)

lemma distinct_foldl_Set_add: "distinct acc \<Longrightarrow> distinct (foldl Set_add acc xs)"
  by (induction xs arbitrary: acc) (auto simp: distinct_Set_add)

lemma set_new_Set: "set (new_Set xs) = set xs"
  by (simp add: new_Set_def set_foldl_Set_add)

lemma distinct_new_Set: "distinct (new_Set xs)"
  by (simp add: new_Set_def distinct_foldl_Set_add)

lemma new_Set_filter: "new_Set (filter P xs) = filter P (new_Set xs)"
proof (induction "length xs" arbitrary: xs rule: less_induct)
  case less
  show ?case
  proof (cases xs)
    case Nil
    then show ?thesis by (simp add: new_Set_Nil)
  next
    case (Cons x ys)
    have len: "length (filter (\<lambda>y. y \<noteq> x) ys) < length xs"
      using Cons by (simp add: less_Suc_eq_le)
    have ih: "new_Set (filter P (filter (\<lambda>y. y \<noteq> x) ys)) = filter P (new_Set (filter (\<lambda>y. y \<noteq> x) ys))"
      using less [OF len] .
    have ih2: "new_Set (filter P ys) = filter P (new_Set ys)"
      using less [of ys] Cons by simp
    have sw: "filter (\<lambda>y. y \<noteq> x) (filter P ys) = filter P (filter (\<lambda>y. y \<noteq> x) ys)"
      by (simp add: conj_commute)
    show ?thesis
    proof (cases "P x")
      case True
      then show ?thesis using Cons ih sw by (simp add: new_Set_Cons)
    next
      case False
      have "filter P ys = filter P (filter (\<lambda>y. y \<noteq> x) ys)"
        using False by (auto intro: filter_cong)
      then show ?thesis using Cons ih False by (simp add: new_Set_Cons)
    qed
  qed
qed

lemma subseq_new_Set: "subseq (new_Set xs) xs"
proof (induction "length xs" arbitrary: xs rule: less_induct)
  case less
  show ?case
  proof (cases xs)
    case Nil
    then show ?thesis by (simp add: new_Set_Nil)
  next
    case (Cons x ys)
    have len: "length (filter (\<lambda>y. y \<noteq> x) ys) < length xs"
      using Cons by (simp add: less_Suc_eq_le)
    have "subseq (new_Set (filter (\<lambda>y. y \<noteq> x) ys)) (filter (\<lambda>y. y \<noteq> x) ys)"
      using less [OF len] .
    moreover have "subseq (filter (\<lambda>y. y \<noteq> x) ys) ys" by simp
    ultimately have "subseq (new_Set (filter (\<lambda>y. y \<noteq> x) ys)) ys"
      by (rule subseq_order.order_trans)
    then show ?thesis using Cons by (simp add: new_Set_Cons)
  qed
qed


lemma new_Set_append_new:
  "x \<notin> set xs \<Longrightarrow> new_Set (xs @ [x]) = new_Set xs @ [x]"
  by (simp add: new_Set_def Set_add_old Set_add_new set_foldl_Set_add)

lemma new_Set_append_old:
  "x \<in> set xs \<Longrightarrow> new_Set (xs @ [x]) = new_Set xs"
  by (simp add: new_Set_def Set_add_old Set_add_new set_foldl_Set_add)

section \<open>The literal written for a list of values\<close>

lemma join_concat: "join (v # vs) sep = v @ concat (map (\<lambda>x. sep @ x) vs)"
  by (induction vs arbitrary: v) simp_all

lemma uniqNonEmptyValues_eq:
  "uniqNonEmptyValues values = new_Set (filter (\<lambda>v. v \<noteq> []) values)"
  by (simp add: uniqNonEmptyValues_def Array_from_def)

lemma updateFilterMultipleValues_eq:
  "updateFilterMultipleValues state token values =
     state\<lparr>query := take (offset (start (location (value token)))) (query state) @
                      list_literal (uniqNonEmptyValues values) @
                      drop (offset (end' (location (value token)))) (query state)\<rparr>"
proof (cases "uniqNonEmptyValues values")
  case Nil
  then show ?thesis
    by (simp add: updateFilterMultipleValues_def replaceQueryToken_eq)
next
  case (Cons v vs)
  then show ?thesis
    by (cases vs) (simp_all add: updateFilterMultipleValues_def replaceQueryToken_eq join_concat)
qed

lemma distinct_uniqNonEmptyValues: "distinct (uniqNonEmptyValues values)"
  by (simp add: uniqNonEmptyValues_eq distinct_new_Set)

lemma set_uniqNonEmptyValues: "set (uniqNonEmptyValues values) = set values - {[]}"
  by (auto simp: uniqNonEmptyValues_eq set_new_Set)

lemma subseq_uniqNonEmptyValues: "subseq (uniqNonEmptyValues values) values"
proof -
  have "subseq (new_Set (filter (\<lambda>v. v \<noteq> []) values)) (filter (\<lambda>v. v \<noteq> []) values)"
    by (rule subseq_new_Set)
  moreover have "subseq (filter (\<lambda>v. v \<noteq> []) values) values" by simp
  ultimately show ?thesis
    unfolding uniqNonEmptyValues_eq by (rule subseq_order.order_trans)
qed

section \<open>Trimming\<close>

lemma isWhiteSpace_space: "isWhiteSpace 32"
  by (simp add: isWhiteSpace_def)

lemma str_space: "str '' '' = [32]"
  by (simp add: str_def)

lemma filter_trimStart: "filter (\<lambda>c. \<not> isWhiteSpace c) (trimStart s) = filter (\<lambda>c. \<not> isWhiteSpace c) s"
  unfolding trimStart_def by (induction s) simp_all

lemma filter_trimEnd: "filter (\<lambda>c. \<not> isWhiteSpace c) (trimEnd s) = filter (\<lambda>c. \<not> isWhiteSpace c) s"
proof -
  have "filter (\<lambda>c. \<not> isWhiteSpace c) (dropWhile isWhiteSpace (rev s)) =
      filter (\<lambda>c. \<not> isWhiteSpace c) (rev s)"
    by (induction "rev s" arbitrary: s) (simp_all add: filter_trimStart [unfolded trimStart_def])
  then show ?thesis
    by (simp add: trimEnd_def rev_filter [symmetric])
qed

lemma filter_trim: "filter (\<lambda>c. \<not> isWhiteSpace c) (trim s) = filter (\<lambda>c. \<not> isWhiteSpace c) s"
  by (simp add: trim_def filter_trimStart filter_trimEnd)

lemma trimStart_all: "(\<forall>c \<in> set s. isWhiteSpace c) \<Longrightarrow> trimStart s = []"
  by (simp add: trimStart_def)

lemma trimEnd_all: "(\<forall>c \<in> set s. isWhiteSpace c) \<Longrightarrow> trimEnd s = []"
  by (simp add: trimEnd_def)

lemma trimStart_append_some:
  "\<exists>c \<in> set xs. \<not> isWhiteSpace c \<Longrightarrow> trimStart (xs @ ys) = trimStart xs @ ys"
  by (auto simp: trimStart_def dropWhile_append1)

lemma trimStart_append_all:
  "\<forall>c \<in> set xs. isWhiteSpace c \<Longrightarrow> trimStart (xs @ ys) = trimStart ys"
  by (simp add: trimStart_def dropWhile_append2)

lemma trimEnd_append_some:
  "\<exists>c \<in> set ys. \<not> isWhiteSpace c \<Longrightarrow> trimEnd (xs @ ys) = xs @ trimEnd ys"
  by (auto simp: trimEnd_def dropWhile_append1)

lemma trimEnd_append_all:
  "\<forall>c \<in> set ys. isWhiteSpace c \<Longrightarrow> trimEnd (xs @ ys) = trimEnd xs"
proof -
  assume "\<forall>c \<in> set ys. isWhiteSpace c"
  then have "dropWhile isWhiteSpace (rev ys @ rev xs) = dropWhile isWhiteSpace (rev xs)"
    by (intro dropWhile_append2) simp
  then show ?thesis by (simp add: trimEnd_def)
qed

lemma trimStart_suffix: "suffix (trimStart s) s"
  by (simp add: trimStart_def suffix_dropWhile)

lemma trimEnd_prefix: "prefix (trimEnd s) s"
proof -
  have "suffix (dropWhile isWhiteSpace (rev s)) (rev s)" by (rule suffix_dropWhile)
  then show ?thesis by (simp add: trimEnd_def suffix_to_prefix)
qed

lemma trimStart_hd: "trimStart s \<noteq> [] \<Longrightarrow> \<not> isWhiteSpace (hd (trimStart s))"
  unfolding trimStart_def by (rule hd_dropWhile)

lemma trimEnd_last: "trimEnd s \<noteq> [] \<Longrightarrow> \<not> isWhiteSpace (last (trimEnd s))"
  unfolding trimEnd_def by (simp add: last_rev hd_dropWhile)

lemma trimStart_id: "s \<noteq> [] \<Longrightarrow> \<not> isWhiteSpace (hd s) \<Longrightarrow> trimStart s = s"
  by (cases s) (simp_all add: trimStart_def)

lemma trimEnd_id: "s \<noteq> [] \<Longrightarrow> \<not> isWhiteSpace (last s) \<Longrightarrow> trimEnd s = s"
  by (cases s rule: rev_cases) (simp_all add: trimEnd_def)

lemma trimEnd_idem: "trimEnd (trimEnd s) = trimEnd s"
  by (cases "trimEnd s = []") (simp_all add: trimEnd_id trimEnd_last trimEnd_def)

lemma trimStart_idem: "trimStart (trimStart s) = trimStart s"
  by (cases "trimStart s = []") (simp_all add: trimStart_id trimStart_hd trimStart_def)

lemma prefix_trimEnd_append: "prefix (trimEnd xs) (trimEnd (xs @ ys))"
proof (cases "\<exists>c \<in> set ys. \<not> isWhiteSpace c")
  case True
  then have "trimEnd (xs @ ys) = xs @ trimEnd ys" by (rule trimEnd_append_some)
  moreover have "prefix (trimEnd xs) xs" by (rule trimEnd_prefix)
  ultimately show ?thesis by (simp add: prefix_prefix)
next
  case False
  then show ?thesis by (simp add: trimEnd_append_all)
qed

lemma prefix_trimStart_append: "prefix (trimStart xs) (trimStart (xs @ ys))"
proof (cases "\<exists>c \<in> set xs. \<not> isWhiteSpace c")
  case True
  then show ?thesis by (simp add: trimStart_append_some)
next
  case False
  then show ?thesis by (simp add: trimStart_all)
qed

lemma suffix_trimStart_append: "suffix (trimStart ys) (trimStart (xs @ ys))"
proof (cases "\<exists>c \<in> set xs. \<not> isWhiteSpace c")
  case True
  then have "trimStart (xs @ ys) = trimStart xs @ ys" by (rule trimStart_append_some)
  moreover have "suffix (trimStart ys) ys" by (rule trimStart_suffix)
  ultimately show ?thesis by (simp add: suffix_appendI)
next
  case False
  then show ?thesis by (simp add: trimStart_append_all)
qed

lemma suffix_trimEnd_append: "suffix (trimEnd ys) (trimEnd (xs @ ys))"
proof (cases "\<exists>c \<in> set ys. \<not> isWhiteSpace c")
  case True
  then show ?thesis by (simp add: trimEnd_append_some suffix_def)
next
  case False
  then show ?thesis by (simp add: trimEnd_all)
qed

lemma prefix_trim_append: "prefix (trim xs) (trim (xs @ ys))"
proof -
  obtain zs where z: "trimEnd (xs @ ys) = trimEnd xs @ zs"
    using prefix_trimEnd_append [of xs ys] by (auto simp: prefix_def)
  show ?thesis by (simp add: trim_def z prefix_trimStart_append)
qed

lemma trimEnd_trimStart: "trimEnd (trimStart s) = trimStart (trimEnd s)"
proof (cases "\<exists>c \<in> set s. \<not> isWhiteSpace c")
  case False
  then show ?thesis by (simp add: trimStart_all trimEnd_all)
next
  case True
  define w where "w = takeWhile isWhiteSpace s"
  define t where "t = dropWhile isWhiteSpace s"
  have s: "s = w @ t" by (simp add: w_def t_def)
  have w: "\<forall>c \<in> set w. isWhiteSpace c" by (auto simp: w_def dest: set_takeWhileD)
  have tne: "t \<noteq> []" using True by (auto simp: t_def dropWhile_eq_Nil_conv)
  have thd: "\<not> isWhiteSpace (hd t)" using tne unfolding t_def by (rule hd_dropWhile)
  have tsome: "\<exists>c \<in> set t. \<not> isWhiteSpace c" using tne thd by (cases t) auto
  have ts: "trimStart s = t" by (simp add: trimStart_def t_def)
  have te: "trimEnd s = w @ trimEnd t" unfolding s using tsome by (rule trimEnd_append_some)
  have pre: "prefix (trimEnd t) t" by (rule trimEnd_prefix)
  have tene: "trimEnd t \<noteq> []"
    using tsome by (auto simp: trimEnd_def dropWhile_eq_Nil_conv)
  have "hd (trimEnd t) = hd t" using pre tene by (cases "trimEnd t") (auto simp: prefix_def)
  then have "trimStart (trimEnd t) = trimEnd t" using tene thd by (simp add: trimStart_id)
  then show ?thesis using w by (simp add: ts te trimStart_append_all)
qed

lemma suffix_trim_append: "suffix (trim ys) (trim (xs @ ys))"
proof -
  obtain zs where z: "trimStart (xs @ ys) = zs @ trimStart ys"
    using suffix_trimStart_append [of ys xs] by (auto simp: suffix_def)
  have "trim (xs @ ys) = trimEnd (zs @ trimStart ys)"
    by (simp add: trim_def trimEnd_trimStart [symmetric] z)
  moreover have "trim ys = trimEnd (trimStart ys)"
    by (simp add: trim_def trimEnd_trimStart)
  ultimately show ?thesis by (simp add: suffix_trimEnd_append)
qed

lemma trim_trimEnd: "trim (trimEnd s) = trim s"
  by (simp add: trim_def trimEnd_idem)

lemma trim_trimStart: "trim (trimStart s) = trim s"
  by (simp add: trim_def trimEnd_trimStart trimStart_idem)

lemma trim_no_stray_ends:
  "trim s \<noteq> [] \<Longrightarrow> \<not> isWhiteSpace (hd (trim s)) \<and> \<not> isWhiteSpace (last (trim s))"
proof -
  assume ne: "trim s \<noteq> []"
  have a: "\<not> isWhiteSpace (hd (trim s))" using ne unfolding trim_def by (rule trimStart_hd)
  have "trim s = trimEnd (trimStart s)" by (simp add: trim_def trimEnd_trimStart)
  then have b: "\<not> isWhiteSpace (last (trim s))" using ne by (simp add: trimEnd_last)
  from a b show ?thesis ..
qed

section \<open>The padded replacement\<close>

lemma replaceTokenWithPadding_eq:
  "replaceTokenWithPadding q token val =
     trim (trimEnd (take (span_start token) q) @ [32] @ trim val @ [32] @
           trimStart (drop (span_end token) q))"
  by (simp add: replaceTokenWithPadding_def substring_prefix substring_from_drop str_space)

lemma replaceTokenWithPadding_no_stray_ends:
  assumes "replaceTokenWithPadding q token val \<noteq> []"
  shows "\<not> isWhiteSpace (hd (replaceTokenWithPadding q token val))"
    and "\<not> isWhiteSpace (last (replaceTokenWithPadding q token val))"
  using assms trim_no_stray_ends unfolding replaceTokenWithPadding_eq by blast+

lemma replaceTokenWithPadding_filter:
  "filter (\<lambda>c. \<not> isWhiteSpace c) (replaceTokenWithPadding q token val) =
     filter (\<lambda>c. \<not> isWhiteSpace c) (take (span_start token) q) @
     filter (\<lambda>c. \<not> isWhiteSpace c) val @
     filter (\<lambda>c. \<not> isWhiteSpace c) (drop (span_end token) q)"
  by (simp add: replaceTokenWithPadding_eq filter_trim filter_trimEnd filter_trimStart
      isWhiteSpace_space)

lemma replaceTokenWithPadding_prefix:
  "prefix (trim (take (span_start token) q)) (replaceTokenWithPadding q token val)"
proof -
  have "prefix (trim (trimEnd (take (span_start token) q)))
      (trim (trimEnd (take (span_start token) q) @
         ([32] @ trim val @ [32] @ trimStart (drop (span_end token) q))))"
    by (rule prefix_trim_append)
  then show ?thesis by (simp add: replaceTokenWithPadding_eq trim_trimEnd)
qed

lemma replaceTokenWithPadding_suffix:
  "suffix (trim (drop (span_end token) q)) (replaceTokenWithPadding q token val)"
proof -
  have "suffix (trim (trimStart (drop (span_end token) q)))
      (trim ((trimEnd (take (span_start token) q) @ [32] @ trim val @ [32]) @
         trimStart (drop (span_end token) q)))"
    by (rule suffix_trim_append)
  then show ?thesis by (simp add: replaceTokenWithPadding_eq trim_trimStart)
qed

text \<open>
  With text on both sides of the span, the result is the two trimmed sides and the trimmed
  replacement, with one space after the first and one before the last: two spaces in a
  row when the trimmed replacement is empty.
\<close>

lemma replaceTokenWithPadding_between_texts:
  assumes "trim (take (span_start token) q) \<noteq> []" and "trim (drop (span_end token) q) \<noteq> []"
  shows "replaceTokenWithPadding q token val =
     trim (take (span_start token) q) @ [32] @ trim val @ [32] @ trim (drop (span_end token) q)"
proof -
  define A where "A = take (span_start token) q"
  define B where "B = drop (span_end token) q"
  have a: "\<exists>c \<in> set (trimEnd A). \<not> isWhiteSpace c"
  proof (rule ccontr)
    assume "\<not> ?thesis"
    then have "trimStart (trimEnd A) = []" by (simp add: trimStart_all)
    with assms(1) show False by (simp add: trim_def A_def)
  qed
  have b: "\<exists>c \<in> set (trimStart B). \<not> isWhiteSpace c"
  proof (rule ccontr)
    assume "\<not> ?thesis"
    then have "trimEnd (trimStart B) = []" by (simp add: trimEnd_all)
    with assms(2) show False by (simp add: trim_def trimEnd_trimStart B_def)
  qed
  have "trimEnd ((trimEnd A @ [32] @ trim val @ [32]) @ trimStart B) =
      (trimEnd A @ [32] @ trim val @ [32]) @ trimEnd (trimStart B)"
    using b by (rule trimEnd_append_some)
  moreover have "trimStart (trimEnd A @ ([32] @ trim val @ [32] @ trimEnd (trimStart B))) =
      trimStart (trimEnd A) @ ([32] @ trim val @ [32] @ trimEnd (trimStart B))"
    using a by (rule trimStart_append_some)
  ultimately have "trim (trimEnd A @ [32] @ trim val @ [32] @ trimStart B) =
      trim A @ [32] @ trim val @ [32] @ trim B"
    by (simp add: trim_def trimEnd_trimStart)
  then show ?thesis by (simp add: replaceTokenWithPadding_eq A_def B_def)
qed

text \<open>
  The replacement itself is trimmed before it is joined: with the replacement as given
  the two spaces of \<open> x\<close> after the separator would both stay.
\<close>

lemma replaceTokenWithPadding_trims_replacement:
  "replaceTokenWithPadding (str ''a foo b'') (mk_token FREE_TEXT ''foo'' 2 5) (str '' x'') =
     str ''a x b''
   \<and> trim (trimEnd (take 2 (str ''a foo b'')) @ str '' '' @ str '' x'' @ str '' '' @
        trimStart (drop 5 (str ''a foo b''))) = str ''a  x b''"
  by (simp add: replaceTokenWithPadding_def substring_prefix substring_from_drop trim_def
      trimStart_def trimEnd_def isWhiteSpace_def str_def mk_token_def)

section \<open>Text kept outside a span\<close>

lemma verbatim_outside_replace: "verbatim_outside s e Q (take s Q @ X @ drop e Q)"
proof -
  have "suffix (drop e Q) ((take s Q @ X) @ drop e Q)" by (rule suffixI) simp
  then show ?thesis by (simp add: verbatim_outside_def)
qed

lemma verbatim_outside_widen:
  assumes "verbatim_outside s e Q R" and "s' \<le> s" and "e \<le> e'"
  shows "verbatim_outside s' e' Q R"
proof -
  have "take s' Q = take s' (take s Q)" using assms(2) by (simp add: min_def)
  then have "prefix (take s' Q) (take s Q)" by (metis take_is_prefix)
  moreover have "drop e' Q = drop (e' - e) (drop e Q)" using assms(3) by simp
  then have "suffix (drop e' Q) (drop e Q)" by (metis suffix_drop)
  moreover have "length (take s' Q) \<le> length (take s Q)" using assms(2) by simp
  moreover have "length (drop e' Q) \<le> length (drop e Q)" using assms(3) by simp
  ultimately show ?thesis
    using assms(1) unfolding verbatim_outside_def
    by (meson add_mono order_trans prefix_order.order_trans suffix_order.order_trans)
qed

lemma multiSelectTokenValue_query:
  "\<exists>X. query (multiSelectTokenValue state token v) =
     take (span_start (value token)) (query state) @ X @ drop (span_end (value token)) (query state)"
  by (simp add: multiSelectTokenValue_def Let_def updateFilterMultipleValues_eq)

lemma deleteLastMultiSelectTokenValue_query:
  "\<exists>X. query (deleteLastMultiSelectTokenValue state token) =
     take (span_start (value token)) (query state) @ X @ drop (span_end (value token)) (query state)"
  by (simp add: deleteLastMultiSelectTokenValue_def Let_def updateFilterMultipleValues_eq)


section \<open>Toggling a value\<close>

lemma uniqNonEmptyValues_Nil: "uniqNonEmptyValues [] = []"
  by (simp add: uniqNonEmptyValues_eq new_Set_Nil)

lemma uniqNonEmptyValues_Cons:
  "uniqNonEmptyValues (x # xs) =
     (if x = [] then uniqNonEmptyValues xs
      else x # uniqNonEmptyValues (filter (\<lambda>y. y \<noteq> x) xs))"
proof -
  have "filter (\<lambda>y. y \<noteq> x) (filter (\<lambda>v. v \<noteq> []) xs) =
      filter (\<lambda>v. v \<noteq> []) (filter (\<lambda>y. y \<noteq> x) xs)"
    by (simp add: conj_commute)
  then show ?thesis by (simp add: uniqNonEmptyValues_eq new_Set_Cons)
qed

lemma uniqNonEmptyValues_filter:
  "uniqNonEmptyValues (filter P xs) = filter P (uniqNonEmptyValues xs)"
proof -
  have "filter (\<lambda>v. v \<noteq> []) (filter P xs) = filter P (filter (\<lambda>v. v \<noteq> []) xs)"
    by (simp add: conj_commute)
  then show ?thesis by (simp add: uniqNonEmptyValues_eq new_Set_filter)
qed

lemma uniqNonEmptyValues_append_empty: "uniqNonEmptyValues (xs @ [[]]) = uniqNonEmptyValues xs"
  by (simp add: uniqNonEmptyValues_eq)

lemma uniqNonEmptyValues_append_new:
  "v \<noteq> [] \<Longrightarrow> v \<notin> set xs \<Longrightarrow> uniqNonEmptyValues (xs @ [v]) = uniqNonEmptyValues xs @ [v]"
  by (simp add: uniqNonEmptyValues_eq new_Set_append_new)


lemma empty_notin_uniqNonEmptyValues: "[] \<notin> set (uniqNonEmptyValues xs)"
  by (simp add: set_uniqNonEmptyValues)

text \<open>The values the code hands on are those of the specification's wording.\<close>

lemma multiSelectTokenValue_toggled:
  "multiSelectTokenValue state token v =
     state\<lparr>query := take (span_start (value token)) (query state) @
                      list_literal (uniqNonEmptyValues (toggled_values (value token) v)) @
                      drop (span_end (value token)) (query state)\<rparr>"
proof -
  have e: "uniqNonEmptyValues [[]] = uniqNonEmptyValues []"
    by (simp add: uniqNonEmptyValues_eq)
  have r: "\<And>xs. filter (\<lambda>x. x \<noteq> v) xs = removeAll v xs"
    by (simp add: removeAll_filter_not_eq eq_commute)
  show ?thesis
    by (simp add: multiSelectTokenValue_def Let_def updateFilterMultipleValues_eq
        toggled_values_def is_list_value_def e r)
qed

text \<open>Toggling is one rule on the values of the token, list or scalar.\<close>

lemma toggled_values_flip:
  "toggled_values tv v =
     (if v \<in> set (token_values tv) then filter (\<lambda>x. x \<noteq> v) (token_values tv)
      else token_values tv @ [v])"
  by (auto simp: toggled_values_def token_values_def removeAll_filter_not_eq eq_commute)

lemma uniq_toggled_values:
  "uniqNonEmptyValues (toggled_values tv v) =
     (if v = [] then uniqNonEmptyValues (token_values tv)
      else if v \<in> set (token_values tv)
        then filter (\<lambda>x. x \<noteq> v) (uniqNonEmptyValues (token_values tv))
        else uniqNonEmptyValues (token_values tv) @ [v])"
proof (cases "v = []")
  case True
  have "filter (\<lambda>x. x \<noteq> []) (uniqNonEmptyValues (token_values tv)) =
      uniqNonEmptyValues (token_values tv)"
    using empty_notin_uniqNonEmptyValues [of "token_values tv"] by (auto intro: filter_True)
  with True show ?thesis
    by (simp add: toggled_values_flip uniqNonEmptyValues_filter uniqNonEmptyValues_append_empty)
next
  case False
  then show ?thesis
    by (simp add: toggled_values_flip uniqNonEmptyValues_filter uniqNonEmptyValues_append_new)
qed

lemma item_text_without_null:
  "filter (\<lambda>v. v \<noteq> []) (map item_text its) =
     filter (\<lambda>v. v \<noteq> []) (map item_text (filter (\<lambda>i. item_value i \<noteq> None) its))"
  by (induction its) (auto simp: item_text_def)


section \<open>Toggling on the token parsed from the result\<close>




section \<open>The rule for lists of values, as the specification words it\<close>

lemma uniqNonEmptyValues_kept: "uniqNonEmptyValues xs = kept_values xs"
  by (induction xs rule: kept_values.induct)
    (simp_all add: uniqNonEmptyValues_Nil uniqNonEmptyValues_Cons)

lemma kept_values_toggled:
  "kept_values (toggled_values tv v) =
     (if v = [] then kept_values (token_values tv)
      else if v \<in> set (token_values tv)
        then filter (\<lambda>x. x \<noteq> v) (kept_values (token_values tv))
        else kept_values (token_values tv) @ [v])"
  using uniq_toggled_values [of tv v] by (simp add: uniqNonEmptyValues_kept)

section \<open>Literals that read back\<close>

text \<open>Different values can have the same literal.\<close>

lemma list_literal_ambiguous:
  "list_literal [str ''[a,b]''] = list_literal [str ''a'', str ''b'']
   \<and> [str ''[a,b]''] \<noteq> [str ''a'', str ''b'']"
  by (simp add: str_def)

lemma list_literal_join:
  "length u > 1 \<Longrightarrow> list_literal u = [91] @ join u [44] @ [93]"
proof -
  assume "length u > 1"
  then obtain a b us where u: "u = a # b # us"
    by (cases u; cases "tl u") auto
  have "map ((@) [44 :: 16 word]) us = map ((#) 44) us" by simp
  then have "concat (map ((@) [44 :: 16 word]) us) = concat (map ((#) 44) us)"
    by (rule arg_cong)
  then show ?thesis using u by (simp add: join_concat str_def)
qed

lemma comma_split:
  fixes x :: jsstring
  assumes "44 \<notin> set x" and "44 \<notin> set y" and "x @ 44 # r = y @ 44 # r'"
  shows "x = y \<and> r = r'"
proof -
  have "takeWhile (\<lambda>c. c \<noteq> 44) (x @ 44 # r) = x"
    using assms(1) by (induction x) auto
  moreover have "takeWhile (\<lambda>c. c \<noteq> 44) (y @ 44 # r') = y"
    using assms(2) by (induction y) auto
  ultimately have "x = y" using assms(3) by simp
  with assms(3) show ?thesis by simp
qed

lemma plain_no_comma: "plain x \<Longrightarrow> 44 \<notin> set x"
  by (auto simp: plain_def list_all_iff)

lemma plain_no_bracket: "plain x \<Longrightarrow> 91 \<notin> set x"
  by (auto simp: plain_def list_all_iff)

text \<open>Texts without a comma are recovered from their comma-separated join.\<close>

lemma join_inject:
  assumes "list_all plain xs" and "list_all plain ys" and "xs \<noteq> []" and "ys \<noteq> []"
    and "join xs [44] = join ys [44]"
  shows "xs = ys"
  using assms
proof (induction xs arbitrary: ys)
  case Nil
  then show ?case by simp
next
  case (Cons x xs)
  obtain y ys' where ys: "ys = y # ys'" using Cons.prems(4) by (cases ys) auto
  have px: "44 \<notin> set x" and py: "44 \<notin> set y"
    using Cons.prems(1,2) ys by (simp_all add: plain_no_comma)
  show ?case
  proof (cases xs)
    case Nil
    have "44 \<notin> set (join (x # xs) [44])" using Nil px by simp
    then have "44 \<notin> set (join ys [44])" using Cons.prems(5) by simp
    then have "ys' = []" using ys by (cases ys') auto
    then show ?thesis using Nil ys Cons.prems(5) by simp
  next
    case (Cons x' xs')
    have "44 \<in> set (join (x # xs) [44])" using Cons by simp
    then have "44 \<in> set (join ys [44])" using Cons.prems(5) by simp
    then obtain y' ys'' where ys': "ys' = y' # ys''"
      using ys py by (cases ys') auto
    have "x @ 44 # join xs [44] = y @ 44 # join ys' [44]"
      using Cons.prems(5) Cons ys ys' by simp
    then have e: "x = y" and r: "join xs [44] = join ys' [44]"
      using comma_split [OF px py] by blast+
    have "xs = ys'"
      using Cons.IH [of ys'] Cons.prems(1,2) ys Cons ys' r by simp
    with e ys show ?thesis by simp
  qed
qed

text \<open>
  For values without brackets and commas the literal is unambiguous: a token that agrees
  with its own text, and whose text is the literal written, stands for the values
  written.
\<close>

lemma literal_token_reads_back:
  assumes pl: "list_all plain u" and ne: "[] \<notin> set u"
    and lt: "literal_token tv" and tx: "text tv = list_literal u"
    and s: "span_start tv = s" and e: "span_end tv = s + length (text tv)"
  shows "reads_back u s tv"
proof (cases "length u > 1")
  case True
  have lit: "list_literal u = [91] @ join u [44] @ [93]"
    using True by (rule list_literal_join)
  have l: "is_list_value tv"
  proof (rule ccontr)
    assume "\<not> is_list_value tv"
    then have "plain (text tv)" using lt by (simp add: literal_token_def)
    then have "91 \<notin> set (text tv)" by (rule plain_no_bracket)
    then show False using tx lit by simp
  qed
  then have i: "items tv \<noteq> []" and ip: "list_all plain (map item_text (items tv))"
    and it: "text tv = [91] @ join (map item_text (items tv)) [44] @ [93]"
    using lt by (simp_all add: literal_token_def str_def)
  have "join (map item_text (items tv)) [44] = join u [44]"
    using it tx lit by simp
  moreover have "u \<noteq> []" using True by auto
  moreover have "map item_text (items tv) \<noteq> []" using i by simp
  ultimately have "map item_text (items tv) = u"
    using join_inject [OF ip pl] by blast
  then show ?thesis using True l s e tx by (simp add: reads_back_def)
next
  case False
  have p: "plain (list_literal u)"
  proof (cases u)
    case Nil
    then show ?thesis by (simp add: plain_def)
  next
    case (Cons x xs)
    with False have "xs = []" by simp
    with Cons pl show ?thesis by simp
  qed
  have "\<not> is_list_value tv"
  proof
    assume "is_list_value tv"
    then have "text tv = [91] @ join (map item_text (items tv)) [44] @ [93]"
      using lt by (simp add: literal_token_def str_def)
    then have "91 \<in> set (list_literal u)" using tx by simp
    then show False using p by (simp add: plain_no_bracket)
  qed
  then show ?thesis using False s e tx by (simp add: reads_back_def)
qed

text \<open>
  So the second toggle meets a token that reads the written values back whenever the
  values of the filter and the candidate hold no bracket and no comma and the token
  agrees with its text, the literal written.
\<close>

lemma plain_values_read_back:
  assumes "list_all plain (token_values tv)" and "plain v"
    and "literal_token tv2"
    and "text tv2 = list_literal (kept_values (toggled_values tv v))"
    and "span_start tv2 = s" and "span_end tv2 = s + length (text tv2)"
  shows "reads_back (kept_values (toggled_values tv v)) s tv2"
proof -
  have "set (kept_values (toggled_values tv v)) \<subseteq> set (token_values tv) \<union> {v}"
    unfolding uniqNonEmptyValues_kept [symmetric] set_uniqNonEmptyValues
    by (auto simp: toggled_values_flip split: if_splits)
  then have p: "list_all plain (kept_values (toggled_values tv v))"
    using assms(1,2) by (auto simp: list_all_iff)
  have n: "[] \<notin> set (kept_values (toggled_values tv v))"
    unfolding uniqNonEmptyValues_kept [symmetric] by (rule empty_notin_uniqNonEmptyValues)
  from p n assms(3-6) show ?thesis by (rule literal_token_reads_back)
qed

section \<open>Removing a token\<close>

text \<open>
  C3. For a token whose span \<open>[s, e)\<close> lies inside the query, \<open>0 \<le> s \<le> e \<le> length Q\<close>,
  DELETE_TOKEN returns exactly \<open>Q[0:s] + Q[e:]\<close>: the span is cut out, nothing is added,
  and the result is shorter than the query by the length of the span.
\<close>

theorem removeQueryToken_cuts_span:
  assumes "span_start token = s" and "span_end token = e"
    and "s \<le> e" and "e \<le> length Q"
  shows "query (reducer stringifyToken \<lparr>query = Q\<rparr> (DELETE_TOKEN token)) = take s Q @ drop e Q
    \<and> removeQueryToken Q token = take s Q @ drop e Q
    \<and> length (removeQueryToken Q token) + (e - s) = length Q"
  using assms by (simp add: removeQueryToken_def substring_prefix substring_from_drop)

theorem removeQueryToken_cuts_span_witness:
  "query (reducer example_stringifyToken \<lparr>query = str ''is:unresolved foo assigned:me''\<rparr>
     (DELETE_TOKEN (mk_token FREE_TEXT ''foo'' 14 17)))
   = str ''is:unresolved  assigned:me''"
  using removeQueryToken_cuts_span [of "mk_token FREE_TEXT ''foo'' 14 17" 14 17
      "str ''is:unresolved foo assigned:me''" example_stringifyToken]
  by (simp add: str_def mk_token_def)

section \<open>The default arm of the reducer\<close>

text \<open>
  C8. For every state and every action whose type tag is none of DELETE_TOKEN,
  UPDATE_FREE_TEXT, UPDATE_FILTER_OP, UPDATE_TOKEN_VALUE, TOGGLE_FILTER_VALUE and
  DELETE_LAST_MULTI_SELECT_FILTER_VALUE, the reducer returns the state unchanged. The
  reducer has no failing branch: its result is always a state.
\<close>

theorem reducer_default_arm:
  assumes "action_type a \<notin> {''DELETE_TOKEN'', ''UPDATE_FREE_TEXT'', ''UPDATE_FILTER_OP'',
      ''UPDATE_TOKEN_VALUE'', ''TOGGLE_FILTER_VALUE'', ''DELETE_LAST_MULTI_SELECT_FILTER_VALUE''}"
  shows "reducer stringifyToken state a = state"
  using assms by (cases a) simp_all

theorem reducer_default_arm_witness:
  "reducer example_stringifyToken \<lparr>query = str ''is:unresolved''\<rparr> (OTHER_ACTION ''CLEAR_QUERY'')
     = \<lparr>query = str ''is:unresolved''\<rparr>"
  using reducer_default_arm [of "OTHER_ACTION ''CLEAR_QUERY''" example_stringifyToken
      "\<lparr>query = str ''is:unresolved''\<rparr>"]
  by simp

section \<open>Writing a list of values\<close>

text \<open>
  C2. The values handed to \<open>updateFilterMultipleValues\<close> are first freed of duplicates
  and of empty strings: what is left is duplicate-free, holds exactly the non-empty
  values, and keeps their order. The literal written at the span of the filter's value
  token is empty when no value is left, the bare value when one is left, and the
  bracketed, comma-separated list when more are left. The values a, the empty string, a
  and b are written as \<open>[a,b]\<close>.
\<close>

theorem updateFilterMultipleValues_serializes:
  "distinct (uniqNonEmptyValues values)
   \<and> set (uniqNonEmptyValues values) = set values - {[]}
   \<and> subseq (uniqNonEmptyValues values) values
   \<and> query (updateFilterMultipleValues state token values) =
       take (span_start (value token)) (query state) @
       list_literal (uniqNonEmptyValues values) @
       drop (span_end (value token)) (query state)
   \<and> list_literal (uniqNonEmptyValues [str ''a'', str '''', str ''a'', str ''b'']) = str ''[a,b]''
   \<and> query (updateFilterMultipleValues \<lparr>query = str ''assigned:team''\<rparr> assigned_team
        [str ''a'', str '''', str ''a'', str ''b'']) = str ''assigned:[a,b]''"
proof -
  have u: "uniqNonEmptyValues [str ''a'', str '''', str ''a'', str ''b''] = [str ''a'', str ''b'']"
    by (simp add: uniqNonEmptyValues_eq new_Set_Cons new_Set_Nil str_def)
  have l: "list_literal (uniqNonEmptyValues [str ''a'', str '''', str ''a'', str ''b'']) = str ''[a,b]''"
    unfolding u by (simp add: str_def)
  have q: "query (updateFilterMultipleValues \<lparr>query = str ''assigned:team''\<rparr> assigned_team
        [str ''a'', str '''', str ''a'', str ''b'']) = str ''assigned:[a,b]''"
    unfolding updateFilterMultipleValues_eq l
    by (simp add: assigned_team_def mk_filter_def mk_value_def str_def)
  show ?thesis
    using l q
    by (simp add: distinct_uniqNonEmptyValues set_uniqNonEmptyValues subseq_uniqNonEmptyValues
        updateFilterMultipleValues_eq)
qed

theorem updateFilterMultipleValues_serializes_witness:
  "query (updateFilterMultipleValues \<lparr>query = str ''assigned:team''\<rparr> assigned_team
     [str ''me'', str ''me'', str '''']) = str ''assigned:me''"
proof -
  have u: "uniqNonEmptyValues [str ''me'', str ''me'', str ''''] = [str ''me'']"
    by (simp add: uniqNonEmptyValues_eq new_Set_Cons new_Set_Nil str_def)
  have "query (updateFilterMultipleValues \<lparr>query = str ''assigned:team''\<rparr> assigned_team
      [str ''me'', str ''me'', str '''']) =
      take (span_start (value assigned_team)) (query \<lparr>query = str ''assigned:team''\<rparr>) @
      list_literal (uniqNonEmptyValues [str ''me'', str ''me'', str '''']) @
      drop (span_end (value assigned_team)) (query \<lparr>query = str ''assigned:team''\<rparr>)"
    using updateFilterMultipleValues_serializes [of "[str ''me'', str ''me'', str '''']"
        "\<lparr>query = str ''assigned:team''\<rparr>" assigned_team]
    by blast
  then show ?thesis
    unfolding u by (simp add: assigned_team_def mk_filter_def mk_value_def str_def)
qed

section \<open>Changing the operator of a filter\<close>

text \<open>
  C6. UPDATE_FILTER_OP with the operator \<open>op\<close> on a filter token: for the not-equal
  operator, the token's operator becomes the default one and the token is negated; for
  any other, the operator becomes \<open>op\<close> and the token is not negated. No other field of
  the token changes, its key and its value among them. The stringifier's text for this
  token is put exactly at the span \<open>[start, end)\<close> of the token.
\<close>

theorem modifyFilterOperator_sets_operator:
  assumes "modifyFilterOperator stringifyToken Q token op = (Q', token')"
  shows "(op = NOT_EQUAL \<longrightarrow> operator token' = DEFAULT \<and> negated token')
    \<and> (op \<noteq> NOT_EQUAL \<longrightarrow> operator token' = op \<and> \<not> negated token')
    \<and> token' = token\<lparr>operator := operator token', negated := negated token'\<rparr>
    \<and> key token' = key token \<and> value token' = value token
    \<and> location token' = location token
    \<and> Q' = take (span_start token) Q @ stringifyToken token' @ drop (span_end token) Q
    \<and> query (reducer stringifyToken \<lparr>query = Q\<rparr> (UPDATE_FILTER_OP op token)) = Q'"
  using assms
  by (auto simp: modifyFilterOperator_def Let_def substring_prefix substring_from_drop)

theorem modifyFilterOperator_sets_operator_witness:
  "query (reducer example_stringifyToken \<lparr>query = str ''assigned:team is:unresolved''\<rparr>
     (UPDATE_FILTER_OP NOT_EQUAL assigned_team)) = str ''!assigned:team is:unresolved''
   \<and> operator (assigned_team\<lparr>negated := True\<rparr>) = DEFAULT"
proof -
  have m: "modifyFilterOperator example_stringifyToken (str ''assigned:team is:unresolved'')
      assigned_team NOT_EQUAL =
      (str ''!assigned:team is:unresolved'', assigned_team\<lparr>negated := True\<rparr>)"
    by (simp add: modifyFilterOperator_def Let_def substring_prefix substring_from_drop
        example_stringifyToken_def assigned_team_def mk_filter_def mk_value_def mk_token_def
        str_def)
  show ?thesis
    using modifyFilterOperator_sets_operator [OF m] by simp
qed

section \<open>Replacing free text\<close>

text \<open>
  C4. For a query \<open>Q\<close>, a token with span \<open>[s, e)\<close> inside \<open>Q\<close> and a replacement \<open>r\<close>,
  UPDATE_FREE_TEXT gives \<open>trim (trimEnd Q[0:s] + " " + r' + " " + trimStart Q[e:])\<close>, where
  \<open>r'\<close> is the replacement with its own leading and trailing whitespace trimmed: the text
  before the span without its trailing whitespace, the trimmed replacement and the text after the
  span without its leading whitespace, joined by single spaces, the whole trimmed at both
  ends.
\<close>

theorem updateFreeText_pads_and_trims:
  assumes "span_start token = s" and "span_end token = e"
    and "s \<le> e" and "e \<le> length Q"
  shows "query (reducer stringifyToken \<lparr>query = Q\<rparr> (UPDATE_FREE_TEXT r token)) =
     trim (trimEnd (take s Q) @ str '' '' @ trim r @ str '' '' @ trimStart (drop e Q))"
  using assms
  by (simp add: updateFreeText_def replaceTokenWithPadding_def substring_prefix
      substring_from_drop)

theorem updateFreeText_pads_and_trims_witness:
  "query (reducer example_stringifyToken \<lparr>query = str ''is:unresolved  foo   assigned:me''\<rparr>
     (UPDATE_FREE_TEXT (str '' bar '') (mk_token FREE_TEXT ''foo'' 15 18)))
   = str ''is:unresolved bar assigned:me''"
proof -
  have "trim (trimEnd (take 15 (str ''is:unresolved  foo   assigned:me'')) @ str '' '' @
      trim (str '' bar '') @ str '' '' @
      trimStart (drop 18 (str ''is:unresolved  foo   assigned:me'')))
    = str ''is:unresolved bar assigned:me''"
    by (simp add: trim_def trimStart_def trimEnd_def isWhiteSpace_def str_def)
  then show ?thesis
    using updateFreeText_pads_and_trims [of "mk_token FREE_TEXT ''foo'' 15 18" 15 18
        "str ''is:unresolved  foo   assigned:me''" example_stringifyToken "str '' bar ''"]
    by (simp add: mk_token_def str_def)
qed

text \<open>
  C5. The claim is that the free-text replacement never leaves two spaces in a row where
  the parts are joined: the three spaces of \<open>a   b\<close> replaced by two spaces should give
  \<open>a b\<close>, and the two spaces between the filters of \<open>is:unresolved  assigned:me\<close>
  replaced by the empty text should give \<open>is:unresolved assigned:me\<close>. The code joins
  the three parts with two single spaces also when the trimmed replacement is empty, so
  both results keep two spaces in a row.
\<close>

theorem updateFreeText_blank_replacement_leaves_two_spaces:
  "query (reducer example_stringifyToken \<lparr>query = str ''a   b''\<rparr>
     (UPDATE_FREE_TEXT (str ''  '') (mk_token SPACES ''   '' 1 4))) = str ''a  b''
   \<and> query (reducer example_stringifyToken \<lparr>query = str ''is:unresolved  assigned:me''\<rparr>
        (UPDATE_FREE_TEXT (str '''') (mk_token SPACES ''  '' 13 15)))
       = str ''is:unresolved  assigned:me''"
  by (simp add: updateFreeText_def replaceTokenWithPadding_def substring_prefix
      substring_from_drop trim_def trimStart_def trimEnd_def isWhiteSpace_def str_def
      mk_token_def)

section \<open>The text outside the span of an edit\<close>

text \<open>
  C7, as the code has it. DELETE_TOKEN, UPDATE_FILTER_OP and UPDATE_TOKEN_VALUE keep the
  text before the start and from the end of their token verbatim; the two multi-value
  updates keep the text before the start and from the end of the filter's value token
  verbatim, hence also the text outside the filter token when the value lies inside it.
  UPDATE_FREE_TEXT keeps the text outside the span up to whitespace only: the characters
  that are not whitespace are those before the span, those of the replacement and those
  after the span, in this order; the text before the span, trimmed, starts the result and
  the text after the span, trimmed, ends it.
\<close>

theorem edits_keep_text_outside_span:
  "verbatim_outside (span_start t) (span_end t) Q
     (query (reducer f \<lparr>query = Q\<rparr> (DELETE_TOKEN t)))
   \<and> verbatim_outside (span_start ft) (span_end ft) Q
       (query (reducer f \<lparr>query = Q\<rparr> (UPDATE_FILTER_OP op ft)))
   \<and> verbatim_outside (span_start t) (span_end t) Q
       (query (reducer f \<lparr>query = Q\<rparr> (UPDATE_TOKEN_VALUE t v)))
   \<and> verbatim_outside (span_start (value ft)) (span_end (value ft)) Q
       (query (reducer f \<lparr>query = Q\<rparr> (TOGGLE_FILTER_VALUE ft v)))
   \<and> verbatim_outside (span_start (value ft)) (span_end (value ft)) Q
       (query (reducer f \<lparr>query = Q\<rparr> (DELETE_LAST_MULTI_SELECT_FILTER_VALUE ft)))
   \<and> (span_start ft \<le> span_start (value ft) \<and> span_end (value ft) \<le> span_end ft \<longrightarrow>
        verbatim_outside (span_start ft) (span_end ft) Q
          (query (reducer f \<lparr>query = Q\<rparr> (TOGGLE_FILTER_VALUE ft v)))
        \<and> verbatim_outside (span_start ft) (span_end ft) Q
            (query (reducer f \<lparr>query = Q\<rparr> (DELETE_LAST_MULTI_SELECT_FILTER_VALUE ft))))
   \<and> filter (\<lambda>c. \<not> isWhiteSpace c) (query (reducer f \<lparr>query = Q\<rparr> (UPDATE_FREE_TEXT r t))) =
       filter (\<lambda>c. \<not> isWhiteSpace c) (take (span_start t) Q) @
       filter (\<lambda>c. \<not> isWhiteSpace c) r @
       filter (\<lambda>c. \<not> isWhiteSpace c) (drop (span_end t) Q)
   \<and> prefix (trim (take (span_start t) Q))
       (query (reducer f \<lparr>query = Q\<rparr> (UPDATE_FREE_TEXT r t)))
   \<and> suffix (trim (drop (span_end t) Q))
       (query (reducer f \<lparr>query = Q\<rparr> (UPDATE_FREE_TEXT r t)))"
proof -
  have del: "verbatim_outside (span_start t) (span_end t) Q
      (query (reducer f \<lparr>query = Q\<rparr> (DELETE_TOKEN t)))"
    using verbatim_outside_replace [of "span_start t" "span_end t" Q "[]"]
    by (simp add: removeQueryToken_def substring_prefix substring_from_drop)
  have op: "verbatim_outside (span_start ft) (span_end ft) Q
      (query (reducer f \<lparr>query = Q\<rparr> (UPDATE_FILTER_OP op ft)))"
    by (simp add: modifyFilterOperator_def Let_def substring_prefix substring_from_drop
        verbatim_outside_replace)
  have upd: "verbatim_outside (span_start t) (span_end t) Q
      (query (reducer f \<lparr>query = Q\<rparr> (UPDATE_TOKEN_VALUE t v)))"
    by (simp add: replaceQueryToken_eq verbatim_outside_replace)
  have tog: "verbatim_outside (span_start (value ft)) (span_end (value ft)) Q
      (query (reducer f \<lparr>query = Q\<rparr> (TOGGLE_FILTER_VALUE ft v)))"
    using multiSelectTokenValue_query [of "\<lparr>query = Q\<rparr>" ft v]
    by (auto simp: verbatim_outside_replace)
  have dl: "verbatim_outside (span_start (value ft)) (span_end (value ft)) Q
      (query (reducer f \<lparr>query = Q\<rparr> (DELETE_LAST_MULTI_SELECT_FILTER_VALUE ft)))"
    using deleteLastMultiSelectTokenValue_query [of "\<lparr>query = Q\<rparr>" ft]
    by (auto simp: verbatim_outside_replace)
  have wide: "span_start ft \<le> span_start (value ft) \<and> span_end (value ft) \<le> span_end ft \<longrightarrow>
      verbatim_outside (span_start ft) (span_end ft) Q
        (query (reducer f \<lparr>query = Q\<rparr> (TOGGLE_FILTER_VALUE ft v)))
      \<and> verbatim_outside (span_start ft) (span_end ft) Q
          (query (reducer f \<lparr>query = Q\<rparr> (DELETE_LAST_MULTI_SELECT_FILTER_VALUE ft)))"
    using tog dl by (blast intro: verbatim_outside_widen)
  have fil: "filter (\<lambda>c. \<not> isWhiteSpace c) (query (reducer f \<lparr>query = Q\<rparr> (UPDATE_FREE_TEXT r t))) =
      filter (\<lambda>c. \<not> isWhiteSpace c) (take (span_start t) Q) @
      filter (\<lambda>c. \<not> isWhiteSpace c) r @
      filter (\<lambda>c. \<not> isWhiteSpace c) (drop (span_end t) Q)"
    by (simp add: updateFreeText_def replaceTokenWithPadding_filter)
  have pre: "prefix (trim (take (span_start t) Q))
      (query (reducer f \<lparr>query = Q\<rparr> (UPDATE_FREE_TEXT r t)))"
    by (simp add: updateFreeText_def replaceTokenWithPadding_prefix)
  have suf: "suffix (trim (drop (span_end t) Q))
      (query (reducer f \<lparr>query = Q\<rparr> (UPDATE_FREE_TEXT r t)))"
    by (simp add: updateFreeText_def replaceTokenWithPadding_suffix)
  from del op upd tog dl wide fil pre suf show ?thesis by blast
qed

theorem edits_keep_text_outside_span_witness:
  "verbatim_outside 0 13 (str ''assigned:team is:unresolved'')
     (query (reducer example_stringifyToken \<lparr>query = str ''assigned:team is:unresolved''\<rparr>
        (TOGGLE_FILTER_VALUE assigned_team (str ''me''))))
   \<and> query (reducer example_stringifyToken \<lparr>query = str ''assigned:team is:unresolved''\<rparr>
        (TOGGLE_FILTER_VALUE assigned_team (str ''me'')))
      = str ''assigned:[team,me] is:unresolved''"
proof -
  have q: "query (reducer example_stringifyToken \<lparr>query = str ''assigned:team is:unresolved''\<rparr>
        (TOGGLE_FILTER_VALUE assigned_team (str ''me'')))
      = str ''assigned:[team,me] is:unresolved''"
    by (simp add: multiSelectTokenValue_def Let_def updateFilterMultipleValues_eq
        uniqNonEmptyValues_eq new_Set_Cons new_Set_Nil assigned_team_def mk_filter_def
        mk_value_def str_def)
  have s: "span_start assigned_team \<le> span_start (value assigned_team)
      \<and> span_end (value assigned_team) \<le> span_end assigned_team"
    by (simp add: assigned_team_def mk_filter_def mk_value_def)
  have "verbatim_outside (span_start assigned_team) (span_end assigned_team)
      (str ''assigned:team is:unresolved'')
      (query (reducer example_stringifyToken \<lparr>query = str ''assigned:team is:unresolved''\<rparr>
        (TOGGLE_FILTER_VALUE assigned_team (str ''me''))))"
    using edits_keep_text_outside_span [of "mk_token SPACES '' '' 13 14"
        "str ''assigned:team is:unresolved''" example_stringifyToken assigned_team DEFAULT
        "str ''me''" "str ''me''"] s
    by blast
  then show ?thesis
    using q by (simp add: assigned_team_def mk_filter_def)
qed

text \<open>
  C7 as it is worded fails on the padded path, which removes whitespace that lies outside
  the span: in the query \<open> a foo\<close>, replacing \<open>foo\<close> by \<open>bar\<close> gives \<open>a bar\<close>, which does
  not start with the text \<open> a \<close> that stood before the span.
\<close>

theorem padded_replace_alters_text_outside_span:
  "query (reducer example_stringifyToken \<lparr>query = str '' a foo''\<rparr>
     (UPDATE_FREE_TEXT (str ''bar'') (mk_token FREE_TEXT ''foo'' 3 6))) = str ''a bar''
   \<and> \<not> verbatim_outside 3 6 (str '' a foo'')
        (query (reducer example_stringifyToken \<lparr>query = str '' a foo''\<rparr>
           (UPDATE_FREE_TEXT (str ''bar'') (mk_token FREE_TEXT ''foo'' 3 6))))
   \<and> \<not> prefix (take 3 (str '' a foo''))
        (query (reducer example_stringifyToken \<lparr>query = str '' a foo''\<rparr>
           (UPDATE_FREE_TEXT (str ''bar'') (mk_token FREE_TEXT ''foo'' 3 6))))"
proof -
  have q: "query (reducer example_stringifyToken \<lparr>query = str '' a foo''\<rparr>
     (UPDATE_FREE_TEXT (str ''bar'') (mk_token FREE_TEXT ''foo'' 3 6))) = str ''a bar''"
    by (simp add: updateFreeText_def replaceTokenWithPadding_def substring_prefix
      substring_from_drop trim_def trimStart_def trimEnd_def isWhiteSpace_def str_def
      mk_token_def)
  show ?thesis
    unfolding q by (simp add: verbatim_outside_def str_def)
qed

section \<open>Toggling a value of a filter\<close>

text \<open>
  C1. TOGGLE_FILTER_VALUE with the candidate \<open>v\<close> on a filter token: for a text list or a
  number list, \<open>v\<close> is added after the values when it is absent and every occurrence of it
  is removed when it is present; for a scalar whose text is \<open>v\<close> no value is left; for
  another scalar the values are the scalar and \<open>v\<close>. These values are written by the rule
  for lists of values (empty strings dropped, the first of equal values kept, then the
  empty, bare or bracketed literal) at the span of the value token. So a scalar equal to
  \<open>v\<close> leaves the empty value, another scalar and \<open>v\<close> are written \<open>[current,v]\<close> when
  neither is empty, and the one that is not empty is written bare when the other is. On
  \<open>assigned:[me,team]\<close>, toggling \<open>me\<close> gives \<open>assigned:team\<close>, and toggling \<open>team\<close> on
  the token parsed from that gives \<open>assigned:\<close>; on \<open>assigned:[me,me]\<close>, toggling \<open>x\<close>
  gives \<open>assigned:[me,x]\<close>; on \<open>assigned:\<close>, toggling \<open>me\<close> gives \<open>assigned:me\<close>.
\<close>

theorem multiSelectTokenValue_toggles:
  "query (reducer f \<lparr>query = Q\<rparr> (TOGGLE_FILTER_VALUE ft v)) =
     take (span_start (value ft)) Q @
     list_literal (kept_values (toggled_values (value ft) v)) @
     drop (span_end (value ft)) Q
   \<and> (\<not> is_list_value (value ft) \<and> text (value ft) = v \<longrightarrow>
        query (reducer f \<lparr>query = Q\<rparr> (TOGGLE_FILTER_VALUE ft v)) =
          take (span_start (value ft)) Q @ drop (span_end (value ft)) Q)
   \<and> (\<not> is_list_value (value ft) \<and> text (value ft) \<noteq> v \<and> text (value ft) \<noteq> [] \<and> v \<noteq> [] \<longrightarrow>
        query (reducer f \<lparr>query = Q\<rparr> (TOGGLE_FILTER_VALUE ft v)) =
          take (span_start (value ft)) Q @
          (str ''['' @ text (value ft) @ str '','' @ v @ str '']'') @
          drop (span_end (value ft)) Q)
   \<and> (\<not> is_list_value (value ft) \<and> text (value ft) = [] \<and> v \<noteq> [] \<longrightarrow>
        query (reducer f \<lparr>query = Q\<rparr> (TOGGLE_FILTER_VALUE ft v)) =
          take (span_start (value ft)) Q @ v @ drop (span_end (value ft)) Q)
   \<and> (\<not> is_list_value (value ft) \<and> text (value ft) \<noteq> [] \<and> v = [] \<longrightarrow>
        query (reducer f \<lparr>query = Q\<rparr> (TOGGLE_FILTER_VALUE ft v)) =
          take (span_start (value ft)) Q @ text (value ft) @ drop (span_end (value ft)) Q)
   \<and> query (reducer f \<lparr>query = str ''assigned:[me,team]''\<rparr>
        (TOGGLE_FILTER_VALUE assigned_me_team (str ''me''))) = str ''assigned:team''
   \<and> query (reducer f \<lparr>query = str ''assigned:team''\<rparr>
        (TOGGLE_FILTER_VALUE assigned_team (str ''team''))) = str ''assigned:''
   \<and> query (reducer f \<lparr>query = str ''assigned:[me,me]''\<rparr>
        (TOGGLE_FILTER_VALUE assigned_me_me (str ''x''))) = str ''assigned:[me,x]''
   \<and> query (reducer f \<lparr>query = str ''assigned:''\<rparr>
        (TOGGLE_FILTER_VALUE assigned_empty (str ''me''))) = str ''assigned:me''"
proof -
  have a: "\<And>Q ft v. query (reducer f \<lparr>query = Q\<rparr> (TOGGLE_FILTER_VALUE ft v)) =
     take (span_start (value ft)) Q @
     list_literal (kept_values (toggled_values (value ft) v)) @
     drop (span_end (value ft)) Q"
    by (simp add: multiSelectTokenValue_toggled uniqNonEmptyValues_kept)
  have b1: "\<not> is_list_value (value ft) \<and> text (value ft) = v \<longrightarrow>
        query (reducer f \<lparr>query = Q\<rparr> (TOGGLE_FILTER_VALUE ft v)) =
          take (span_start (value ft)) Q @ drop (span_end (value ft)) Q"
    unfolding a by (simp add: toggled_values_def)
  have b2: "\<not> is_list_value (value ft) \<and> text (value ft) \<noteq> v \<and> text (value ft) \<noteq> [] \<and> v \<noteq> [] \<longrightarrow>
        query (reducer f \<lparr>query = Q\<rparr> (TOGGLE_FILTER_VALUE ft v)) =
          take (span_start (value ft)) Q @
          (str ''['' @ text (value ft) @ str '','' @ v @ str '']'') @
          drop (span_end (value ft)) Q"
    unfolding a by (simp add: toggled_values_def)
  have b3: "\<not> is_list_value (value ft) \<and> text (value ft) = [] \<and> v \<noteq> [] \<longrightarrow>
        query (reducer f \<lparr>query = Q\<rparr> (TOGGLE_FILTER_VALUE ft v)) =
          take (span_start (value ft)) Q @ v @ drop (span_end (value ft)) Q"
    unfolding a by (auto simp: toggled_values_def)
  have b4: "\<not> is_list_value (value ft) \<and> text (value ft) \<noteq> [] \<and> v = [] \<longrightarrow>
        query (reducer f \<lparr>query = Q\<rparr> (TOGGLE_FILTER_VALUE ft v)) =
          take (span_start (value ft)) Q @ text (value ft) @ drop (span_end (value ft)) Q"
    unfolding a by (auto simp: toggled_values_def)
  have c: "query (reducer f \<lparr>query = str ''assigned:[me,team]''\<rparr>
        (TOGGLE_FILTER_VALUE assigned_me_team (str ''me''))) = str ''assigned:team''"
    unfolding a
    by (simp add: toggled_values_def is_list_value_def item_text_def assigned_me_team_def
        mk_filter_def mk_value_def mk_item_def mk_token_def str_def)
  have d: "query (reducer f \<lparr>query = str ''assigned:team''\<rparr>
        (TOGGLE_FILTER_VALUE assigned_team (str ''team''))) = str ''assigned:''"
    unfolding a
    by (simp add: toggled_values_def is_list_value_def assigned_team_def mk_filter_def
        mk_value_def str_def)
  have e: "query (reducer f \<lparr>query = str ''assigned:[me,me]''\<rparr>
        (TOGGLE_FILTER_VALUE assigned_me_me (str ''x''))) = str ''assigned:[me,x]''"
    unfolding a
    by (simp add: toggled_values_def is_list_value_def item_text_def assigned_me_me_def
        mk_filter_def mk_value_def mk_item_def mk_token_def str_def)
  have g: "query (reducer f \<lparr>query = str ''assigned:''\<rparr>
        (TOGGLE_FILTER_VALUE assigned_empty (str ''me''))) = str ''assigned:me''"
    unfolding a
    by (simp add: toggled_values_def is_list_value_def assigned_empty_def mk_filter_def
        mk_value_def str_def)
  from a [of Q ft v] b1 b2 b3 b4 c d e g show ?thesis by blast
qed

theorem multiSelectTokenValue_toggles_witness:
  "query (reducer example_stringifyToken \<lparr>query = str ''assigned:team''\<rparr>
     (TOGGLE_FILTER_VALUE assigned_team (str ''me''))) = str ''assigned:[team,me]''"
proof -
  have p: "\<not> is_list_value (value assigned_team) \<and> text (value assigned_team) \<noteq> str ''me''
      \<and> text (value assigned_team) \<noteq> [] \<and> str ''me'' \<noteq> []"
    by (simp add: is_list_value_def assigned_team_def mk_filter_def mk_value_def str_def)
  have "query (reducer example_stringifyToken \<lparr>query = str ''assigned:team''\<rparr>
      (TOGGLE_FILTER_VALUE assigned_team (str ''me''))) =
      take (span_start (value assigned_team)) (str ''assigned:team'') @
      (str ''['' @ text (value assigned_team) @ str '','' @ str ''me'' @ str '']'') @
      drop (span_end (value assigned_team)) (str ''assigned:team'')"
    using multiSelectTokenValue_toggles [of example_stringifyToken "str ''assigned:team''"
        assigned_team "str ''me''"] p
    by blast
  then show ?thesis
    by (simp add: assigned_team_def mk_filter_def mk_value_def str_def)
qed

section \<open>The order of the values\<close>

text \<open>
  C10. TOGGLE_FILTER_VALUE on a list value keeps the order of the values that stay: an
  absent candidate is written after all the values there were, a present candidate is
  taken out and the others stay in their order. Of equal values the first is kept, where
  it stands: the values written are a subsequence of the values of the items. An item
  whose value is null counts as the empty string and is not written.
\<close>

theorem toggle_keeps_order:
  assumes "is_list_value (value ft)" and "vals = map item_text (items (value ft))"
  shows "(v \<notin> set vals \<longrightarrow>
       query (reducer f \<lparr>query = Q\<rparr> (TOGGLE_FILTER_VALUE ft v)) =
         take (span_start (value ft)) Q @
         list_literal (uniqNonEmptyValues vals @ (if v = [] then [] else [v])) @
         drop (span_end (value ft)) Q)
    \<and> (v \<in> set vals \<longrightarrow>
       query (reducer f \<lparr>query = Q\<rparr> (TOGGLE_FILTER_VALUE ft v)) =
         take (span_start (value ft)) Q @
         list_literal (filter (\<lambda>x. x \<noteq> v) (uniqNonEmptyValues vals)) @
         drop (span_end (value ft)) Q)
    \<and> subseq (uniqNonEmptyValues vals) vals
    \<and> uniqNonEmptyValues [] = []
    \<and> uniqNonEmptyValues (x # xs) =
        (if x = [] then uniqNonEmptyValues xs
         else x # uniqNonEmptyValues (filter (\<lambda>y. y \<noteq> x) xs))
    \<and> (item_value i = None \<longrightarrow> item_text i = [])
    \<and> uniqNonEmptyValues vals =
        uniqNonEmptyValues (map item_text (filter (\<lambda>i. item_value i \<noteq> None) (items (value ft))))"
proof -
  have tv: "token_values (value ft) = vals"
    using assms by (simp add: token_values_def)
  have q: "query (reducer f \<lparr>query = Q\<rparr> (TOGGLE_FILTER_VALUE ft v)) =
      take (span_start (value ft)) Q @
      list_literal (uniqNonEmptyValues (toggled_values (value ft) v)) @
      drop (span_end (value ft)) Q"
    by (simp add: multiSelectTokenValue_toggled)
  have f0: "filter (\<lambda>x. x \<noteq> []) (uniqNonEmptyValues vals) = uniqNonEmptyValues vals"
    using empty_notin_uniqNonEmptyValues [of vals] by (auto intro: filter_True)
  have a: "v \<notin> set vals \<longrightarrow>
       query (reducer f \<lparr>query = Q\<rparr> (TOGGLE_FILTER_VALUE ft v)) =
         take (span_start (value ft)) Q @
         list_literal (uniqNonEmptyValues vals @ (if v = [] then [] else [v])) @
         drop (span_end (value ft)) Q"
    unfolding q uniq_toggled_values tv by simp
  have b: "v \<in> set vals \<longrightarrow>
       query (reducer f \<lparr>query = Q\<rparr> (TOGGLE_FILTER_VALUE ft v)) =
         take (span_start (value ft)) Q @
         list_literal (filter (\<lambda>x. x \<noteq> v) (uniqNonEmptyValues vals)) @
         drop (span_end (value ft)) Q"
    unfolding q uniq_toggled_values tv using f0 by simp
  have c: "item_value i = None \<longrightarrow> item_text i = []"
    by (simp add: item_text_def)
  have "filter (\<lambda>v. v \<noteq> []) (map item_text (items (value ft))) =
      filter (\<lambda>v. v \<noteq> [])
        (map item_text (filter (\<lambda>i. item_value i \<noteq> None) (items (value ft))))"
    by (rule item_text_without_null)
  then have d: "uniqNonEmptyValues vals =
      uniqNonEmptyValues (map item_text (filter (\<lambda>i. item_value i \<noteq> None) (items (value ft))))"
    using assms(2) by (simp add: uniqNonEmptyValues_eq)
  have s: "subseq (uniqNonEmptyValues vals) vals"
    by (rule subseq_uniqNonEmptyValues)
  have n: "uniqNonEmptyValues ([] :: jsstring list) = []"
    by (rule uniqNonEmptyValues_Nil)
  have k: "uniqNonEmptyValues (x # xs) =
      (if x = [] then uniqNonEmptyValues xs
       else x # uniqNonEmptyValues (filter (\<lambda>y. y \<noteq> x) xs))"
    by (rule uniqNonEmptyValues_Cons)
  from a b s n k c d show ?thesis by blast
qed

theorem toggle_keeps_order_witness:
  "query (reducer example_stringifyToken \<lparr>query = str ''assigned:[me,,team] is:unresolved''\<rparr>
     (TOGGLE_FILTER_VALUE
        (mk_filter ''assigned:[me,,team]'' 0 19
           (mk_token (OTHER_TOKEN ''keySimple'') ''assigned'' 0 8)
           (mk_value VALUE_TEXT_LIST ''[me,,team]'' 9 19
              [mk_item [] ''me'' 10 12, \<lparr>separator = str '','', item_value = None\<rparr>,
               mk_item '','' ''team'' 14 18]))
        (str ''me''))) = str ''assigned:team is:unresolved''"
proof -
  let ?ft = "mk_filter ''assigned:[me,,team]'' 0 19
           (mk_token (OTHER_TOKEN ''keySimple'') ''assigned'' 0 8)
           (mk_value VALUE_TEXT_LIST ''[me,,team]'' 9 19
              [mk_item [] ''me'' 10 12, \<lparr>separator = str '','', item_value = None\<rparr>,
               mk_item '','' ''team'' 14 18])"
  have l: "is_list_value (value ?ft)"
    by (simp add: is_list_value_def mk_filter_def mk_value_def)
  have v: "map item_text (items (value ?ft)) = [str ''me'', [], str ''team'']"
    by (simp add: item_text_def mk_filter_def mk_value_def mk_item_def mk_token_def)
  have m: "str ''me'' \<in> set (map item_text (items (value ?ft)))"
    unfolding v by simp
  have u: "filter (\<lambda>x. x \<noteq> str ''me'') (uniqNonEmptyValues [str ''me'', [], str ''team'']) =
      [str ''team'']"
    by (simp add: uniqNonEmptyValues_Cons uniqNonEmptyValues_Nil str_def)
  have "query (reducer example_stringifyToken
      \<lparr>query = str ''assigned:[me,,team] is:unresolved''\<rparr>
      (TOGGLE_FILTER_VALUE ?ft (str ''me''))) =
      take (span_start (value ?ft)) (str ''assigned:[me,,team] is:unresolved'') @
      list_literal (filter (\<lambda>x. x \<noteq> str ''me'')
        (uniqNonEmptyValues (map item_text (items (value ?ft))))) @
      drop (span_end (value ?ft)) (str ''assigned:[me,,team] is:unresolved'')"
    using toggle_keeps_order [OF l refl, of "str ''me''" example_stringifyToken
        "str ''assigned:[me,,team] is:unresolved''"] m
    by blast
  then show ?thesis
    unfolding v u by (simp add: mk_filter_def mk_value_def str_def)
qed

section \<open>Toggling the same value twice\<close>




end
